theory Spec2Isabelle
  imports Complex_Main "HOL-Library.Word"
begin

section \<open>Data model of the notification manager\<close>

text \<open>
  The development embeds \<^verbatim>\<open>td/telegram/NotificationManager.cpp\<close>.  Identifiers and dates
  are \<^verbatim>\<open>int32\<close>/\<^verbatim>\<open>int64\<close> values that the code only stores and compares; they are modelled
  as \<open>int\<close>.  Values the code does arithmetic on (\<^verbatim>\<open>total_count\<close>, the delays) are
  32-bit words read as two's complement, so that \<open>+\<close> and \<open>-\<close> wrap.  Container sizes
  (\<^verbatim>\<open>size_t\<close>) are \<open>nat\<close>.
\<close>

type_synonym int32 = "32 word"

text \<open>
  Every \<^verbatim>\<open>CHECK\<close> of the source, every dereference of a null \<^verbatim>\<open>unique_ptr\<close> and the
  dereference of the end iterator is a value of \<open>error\<close>; a function that can hit one
  returns \<open>error + 'a\<close>.
\<close>

datatype error =
    CHECK_failed string
  | Null_dereference
  | End_iterator_dereference
  | Narrow_cast_failed

datatype DialogType = NoType | User | Chat | Channel | SecretChat

text \<open>
  \<^verbatim>\<open>NotificationType\<close> is an abstract class declared outside the file; an object of it is
  modelled by the results of the two virtual methods the manager calls.  The rendered
  \<^verbatim>\<open>td_api\<close> object is opaque (a string here); \<open>None\<close> is the null object.
\<close>

record NotificationType =
  can_be_delayed :: bool
  get_notification_type_object :: "int \<Rightarrow> string option"

text \<open>A \<^verbatim>\<open>unique_ptr<NotificationType>\<close> is an option: \<open>None\<close> is \<^verbatim>\<open>nullptr\<close>.\<close>

record Notification =
  notification_id :: int
  ntype :: "NotificationType option"

record PendingNotification =
  p_date :: int
  p_settings_dialog_id :: int
  p_is_silent :: bool
  p_notification_id :: int
  p_type :: "NotificationType option"

record NotificationGroupKey =
  group_id :: int
  dialog_id :: int
  last_notification_date :: int

record NotificationGroup =
  total_count :: int32
  notifications :: "Notification list"
  pending_notifications_flush_time :: real
  pending_notifications :: "PendingNotification list"

text \<open>A \<^verbatim>\<open>td_api::notification\<close>: the identifier and the rendered type object.\<close>

type_synonym td_notification = "int \<times> string option"

datatype update =
    updateNotificationGroup
      (upd_group_id: int) (upd_dialog_id: int) (upd_settings_dialog_id: int)
      (upd_is_silent: bool) (upd_total_count: int32)
      (upd_added_notifications: "td_notification list")
      (upd_removed_notification_ids: "int list")
  | updateNotification int td_notification

text \<open>
  The manager, its members written without their trailing underscore: the ordered store
  \<^verbatim>\<open>groups_\<close> (a \<^verbatim>\<open>std::map\<close>, kept as the list of its entries in iteration order), the
  configuration mirror, the result of \<^verbatim>\<open>is_bot()\<close>,
  and the updates sent so far, oldest first.
\<close>

record manager =
  is_bot :: bool
  groups :: "(NotificationGroupKey \<times> NotificationGroup) list"
  max_notification_group_count :: nat
  max_notification_group_size :: nat
  keep_notification_group_size :: nat
  online_cloud_timeout_ms :: int32
  notification_cloud_delay_ms :: int32
  notification_default_delay_ms :: int32
  sent_updates :: "update list"

definition is_disabled :: "manager \<Rightarrow> bool" where
  "is_disabled m = is_bot m"

text \<open>
  Modelled from the spec: \<^verbatim>\<open>NotificationId::is_valid\<close> and
  \<^verbatim>\<open>NotificationGroupId::is_valid\<close> (declared in headers that are not part of the file):
  an identifier is a positive 31-bit integer, and zero is the invalid sentinel.
\<close>

definition is_valid :: "int \<Rightarrow> bool" where
  "is_valid i = (0 < i)"

text \<open>Modelled from the spec: \<^verbatim>\<open>EXTRA_GROUP_SIZE\<close>, a constant of the header, is 10.\<close>

definition EXTRA_GROUP_SIZE :: nat where
  "EXTRA_GROUP_SIZE = 10"

section \<open>The delay policy\<close>

text \<open>\<^verbatim>\<open>std::max\<close> on \<^verbatim>\<open>int32\<close>: the second argument when the first is smaller.\<close>

definition max_int32 :: "int32 \<Rightarrow> int32 \<Rightarrow> int32" where
  "max_int32 a b = (if a <s b then b else a)"

text \<open>
  What \<^verbatim>\<open>get_notification_delay_ms\<close> reads from its collaborators.  The two expressions
  over \<^verbatim>\<open>double\<close> are inputs: \<open>was_online_remote_recently\<close> is the value of the comparison
  \<^verbatim>\<open>was_online_remote > max(was_online_local, server_time - online_cloud_timeout_ms * 1e-3)\<close>
  and \<open>passed_time_cast\<close> is the value of
  \<^verbatim>\<open>static_cast<int32>((server_time - notification.date - 1) * 1000)\<close>.
\<close>

record online_info =
  is_online_local :: bool
  is_online_remote :: bool
  was_online_remote_recently :: bool
  passed_time_cast :: int32

text \<open>
  The lambda of \<^verbatim>\<open>get_notification_delay_ms\<close>.  \<^verbatim>\<open>notification.type->can_be_delayed()\<close>
  dereferences the type, which is only reached for a dialog that is not a secret chat.
\<close>

definition delay_ms :: "manager \<Rightarrow> online_info \<Rightarrow> DialogType \<Rightarrow> PendingNotification \<Rightarrow> error + int32" where
  "delay_ms m info dtype notification =
     (if dtype = SecretChat then Inr 0
      else case p_type notification of
        None \<Rightarrow> Inl Null_dereference
      | Some t \<Rightarrow>
          if \<not> can_be_delayed t then Inr 0
          else if \<not> is_online_local info \<and> is_online_remote info
            then Inr (notification_cloud_delay_ms m)
          else if \<not> is_online_local info \<and> was_online_remote_recently info
            then Inr (notification_cloud_delay_ms m)
          else if is_online_remote info
            then Inr (notification_default_delay_ms m)
          else Inr 0)"

text \<open>
  \<^verbatim>\<open>MIN_NOTIFICATION_DELAY_MS\<close> is a constant of the header; it is the first parameter.
  The subtraction is the wrapping one of \<open>32 word\<close>.
\<close>

definition get_notification_delay_ms ::
  "int32 \<Rightarrow> manager \<Rightarrow> online_info \<Rightarrow> DialogType \<Rightarrow> PendingNotification \<Rightarrow> error + int32" where
  "get_notification_delay_ms MIN_NOTIFICATION_DELAY_MS m info dtype notification =
     (case delay_ms m info dtype notification of
        Inl e \<Rightarrow> Inl e
      | Inr d \<Rightarrow>
          let passed_time_ms = max_int32 0 (passed_time_cast info)
          in Inr (max_int32 (d - passed_time_ms) MIN_NOTIFICATION_DELAY_MS))"

section \<open>The remove path\<close>

text \<open>What a \<^verbatim>\<open>Promise<Unit>\<close> was resolved with: a value, or \<^verbatim>\<open>Status::Error(code, message)\<close>.\<close>

datatype promise_result = Promise_value unit | Promise_error int string

definition remove_notification :: "manager \<Rightarrow> int \<Rightarrow> int \<Rightarrow> manager \<times> promise_result" where
  "remove_notification m gid nid =
     (if \<not> is_valid nid
        then (m, Promise_error 400 ''Notification identifier is invalid'')
      else if is_disabled m then (m, Promise_value ())
      else (m, Promise_value ()))"

section \<open>The ordered group store\<close>

text \<open>
  Modelled from the spec: \<^verbatim>\<open>operator<\<close> of \<^verbatim>\<open>NotificationGroupKey\<close> (declared in
  \<^verbatim>\<open>NotificationManager.h\<close>, which is not part of the file): keys are ordered by
  \<^verbatim>\<open>last_notification_date\<close> descending, ties broken by \<^verbatim>\<open>group_id\<close> descending.
\<close>

definition key_less :: "NotificationGroupKey \<Rightarrow> NotificationGroupKey \<Rightarrow> bool" where
  "key_less a b =
     (if last_notification_date a \<noteq> last_notification_date b
        then last_notification_date b < last_notification_date a
      else group_id b < group_id a)"

text \<open>The default-constructed key \<^verbatim>\<open>NotificationGroupKey()\<close>.\<close>

definition empty_key :: NotificationGroupKey where
  "empty_key = \<lparr>group_id = 0, dialog_id = 0, last_notification_date = 0\<rparr>"

text \<open>
  \<^verbatim>\<open>get_group\<close> scans the store from the front; the iterator it returns is the position
  of the entry, and \<open>None\<close> is \<^verbatim>\<open>groups_.end()\<close>.
\<close>

fun get_group :: "(NotificationGroupKey \<times> 'g) list \<Rightarrow> int \<Rightarrow> nat option" where
  "get_group [] g = None"
| "get_group (e # es) g =
     (if group_id (fst e) = g then Some 0 else map_option Suc (get_group es g))"

text \<open>\<^verbatim>\<open>groups_.erase(it)\<close>.\<close>

definition erase :: "nat \<Rightarrow> 'a list \<Rightarrow> 'a list" where
  "erase i xs = take i xs @ drop (Suc i) xs"

text \<open>
  \<^verbatim>\<open>groups_.emplace(key, group)\<close>: the entry goes in front of the first larger key; when an
  equivalent key (neither smaller nor larger) is present, the store is left as it is.
\<close>

fun emplace :: "NotificationGroupKey \<Rightarrow> 'g \<Rightarrow> (NotificationGroupKey \<times> 'g) list
    \<Rightarrow> (NotificationGroupKey \<times> 'g) list" where
  "emplace k g [] = [(k, g)]"
| "emplace k g (e # es) =
     (if key_less k (fst e) then (k, g) # e # es
      else if key_less (fst e) k then e # emplace k g es
      else e # es)"

text \<open>
  The loop of \<^verbatim>\<open>get_last_updated_group_key\<close>: the iterator moves forward while it is not
  at the end and \<^verbatim>\<open>left > 1\<close>.  The result is the rest of the store from the iterator on.
\<close>

fun advance :: "int \<Rightarrow> 'a list \<Rightarrow> 'a list" where
  "advance left [] = []"
| "advance left (e # es) = (if 1 < left then advance (left - 1) es else e # es)"

text \<open>
  \<^verbatim>\<open>int left = max_notification_group_count_\<close> narrows the \<^verbatim>\<open>size_t\<close> to a 32-bit \<^verbatim>\<open>int\<close>:
  the counter starts as the count modulo \<open>2 ^ 32\<close>, read as two's complement.
\<close>

definition get_last_updated_group_key :: "nat \<Rightarrow> (NotificationGroupKey \<times> 'g) list
    \<Rightarrow> NotificationGroupKey" where
  "get_last_updated_group_key max_count store =
     (case advance (sint (word_of_nat max_count :: int32)) store of
        [] \<Rightarrow> empty_key
      | e # _ \<Rightarrow> fst e)"

section \<open>Emitting updates\<close>

text \<open>\<^verbatim>\<open>notification.type->get_notification_type_object(dialog_id)\<close> dereferences the type.\<close>

definition get_notification_object :: "int \<Rightarrow> Notification \<Rightarrow> error + td_notification" where
  "get_notification_object dialog n =
     (case ntype n of
        None \<Rightarrow> Inl Null_dereference
      | Some t \<Rightarrow> Inr (notification_id n, get_notification_type_object t dialog))"

definition send_update_notification_group :: "manager \<Rightarrow> update \<Rightarrow> manager" where
  "send_update_notification_group m u = m\<lparr>sent_updates := sent_updates m @ [u]\<rparr>"

definition send_update_notification :: "manager \<Rightarrow> int \<Rightarrow> int \<Rightarrow> Notification \<Rightarrow> error + manager" where
  "send_update_notification m gid dialog n =
     (case get_notification_object dialog n of
        Inl e \<Rightarrow> Inl e
      | Inr obj \<Rightarrow>
          if snd obj = None then Inr m
          else Inr (m\<lparr>sent_updates := sent_updates m @ [updateNotification gid obj]\<rparr>))"

section \<open>Flushing one batch of pending notifications\<close>

text \<open>
  The first loop of the three-argument \<^verbatim>\<open>flush_pending_notifications\<close>: each pending
  notification becomes a \<^verbatim>\<open>Notification\<close> and is rendered; a null render is popped again,
  any other is kept and the notification appended to \<^verbatim>\<open>group.notifications\<close>.
\<close>

definition to_notification :: "PendingNotification \<Rightarrow> Notification" where
  "to_notification p = \<lparr>notification_id = p_notification_id p, ntype = p_type p\<rparr>"

fun add_pending :: "int \<Rightarrow> PendingNotification list \<Rightarrow> td_notification list \<Rightarrow> Notification list
    \<Rightarrow> error + (td_notification list \<times> Notification list)" where
  "add_pending dialog [] added ns = Inr (added, ns)"
| "add_pending dialog (p # ps) added ns =
     (case get_notification_object dialog (to_notification p) of
        Inl e \<Rightarrow> Inl e
      | Inr obj \<Rightarrow>
          if snd obj = None then add_pending dialog ps added ns
          else add_pending dialog ps (added @ [obj]) (ns @ [to_notification p]))"

text \<open>
  The cap on the rendered notifications: when there are more than
  \<^verbatim>\<open>max_notification_group_size_\<close>, the first ones are erased.
\<close>

definition cap_added :: "nat \<Rightarrow> td_notification list \<Rightarrow> td_notification list" where
  "cap_added max_size rendered =
     (if max_size < length rendered then drop (length rendered - max_size) rendered
      else rendered)"

text \<open>
  The identifiers withdrawn from the shown notifications; \<open>ns\<close> is \<^verbatim>\<open>group.notifications\<close>
  after the first loop.  The indices read are those of notifications that were there
  before the loop (\<open>removed_ids_in_range\<close> below).
\<close>

definition removed_ids :: "nat \<Rightarrow> nat \<Rightarrow> nat \<Rightarrow> nat \<Rightarrow> Notification list \<Rightarrow> int list" where
  "removed_ids max_size old_notification_count shown_notification_count added_count ns =
     (if max_size < shown_notification_count + added_count
        then map (\<lambda>i. notification_id (ns ! (old_notification_count - shown_notification_count + i)))
               [0 ..< shown_notification_count + added_count - max_size]
      else [])"

text \<open>
  The rest of the three-argument overload after its first loop: \<open>first\<close> is
  \<^verbatim>\<open>pending_notifications[0]\<close>, \<open>rendered\<close> and \<open>ns\<close> are what the loop has left in
  \<^verbatim>\<open>added_notifications\<close> and \<^verbatim>\<open>group.notifications\<close>, and \<open>grp\<close> is the group before the
  loop.  \<^verbatim>\<open>narrow_cast<int32>\<close> fails on a size that does not fit; \<^verbatim>\<open>total_count +=\<close> is the
  wrapping addition of \<open>32 word\<close>.
\<close>

definition send_batch :: "manager \<Rightarrow> NotificationGroupKey \<Rightarrow> NotificationGroup
    \<Rightarrow> PendingNotification \<Rightarrow> td_notification list \<Rightarrow> Notification list
    \<Rightarrow> error + (manager \<times> NotificationGroup)" where
  "send_batch m group_key grp first rendered ns =
     (let old_notification_count = length (notifications grp);
          shown_notification_count = min old_notification_count (max_notification_group_size m);
          added_notifications = cap_added (max_notification_group_size m) rendered;
          removed_notification_ids =
            removed_ids (max_notification_group_size m) old_notification_count
              shown_notification_count (length added_notifications) ns
      in if \<not> int (length added_notifications) < 2 ^ 31 then Inl Narrow_cast_failed
         else
           let grp' = grp\<lparr>notifications := ns,
                   total_count := total_count grp + of_nat (length added_notifications)\<rparr>
           in if added_notifications \<noteq> []
                then Inr (send_update_notification_group m
                       (updateNotificationGroup (group_id group_key) (dialog_id group_key)
                          (p_settings_dialog_id first) (p_is_silent first)
                          (total_count grp') added_notifications removed_notification_ids),
                     grp')
              else if removed_notification_ids = [] then Inr (m, grp')
              else Inl (CHECK_failed ''removed_notification_ids.empty()''))"

text \<open>
  The three-argument overload.  The batch is cleared at the end, so only the manager
  (for the update sent) and the group are returned.
\<close>

definition flush_pending_notifications_batch :: "manager \<Rightarrow> NotificationGroupKey \<Rightarrow> NotificationGroup
    \<Rightarrow> PendingNotification list \<Rightarrow> error + (manager \<times> NotificationGroup)" where
  "flush_pending_notifications_batch m group_key grp pending =
     (case pending of
        [] \<Rightarrow> Inr (m, grp)
      | first # _ \<Rightarrow>
          (case add_pending (dialog_id group_key) pending [] (notifications grp) of
             Inl e \<Rightarrow> Inl e
           | Inr (rendered, ns) \<Rightarrow> send_batch m group_key grp first rendered ns))"

section \<open>Seed updates\<close>

definition send_remove_group_update :: "manager \<Rightarrow> int \<Rightarrow> error + manager" where
  "send_remove_group_update m gid =
     (if \<not> is_valid gid then Inl (CHECK_failed ''group_id.is_valid()'')
      else case get_group (groups m) gid of
        None \<Rightarrow> Inl (CHECK_failed ''group_it != groups_.end()'')
      | Some pos \<Rightarrow>
          let key = fst (groups m ! pos);
              ns = notifications (snd (groups m ! pos));
              total_size = length ns;
              removed_size = min total_size (max_notification_group_size m);
              removed_notification_ids =
                map (\<lambda>i. notification_id (ns ! i)) [total_size - removed_size ..< total_size]
          in if removed_notification_ids \<noteq> []
               then Inr (send_update_notification_group m
                      (updateNotificationGroup gid (dialog_id key) (dialog_id key) True 0 []
                         removed_notification_ids))
             else Inr m)"

text \<open>The loop of \<^verbatim>\<open>send_add_group_update\<close> over the notifications it is given.\<close>

fun render_notifications :: "int \<Rightarrow> Notification list \<Rightarrow> td_notification list
    \<Rightarrow> error + td_notification list" where
  "render_notifications dialog [] added = Inr added"
| "render_notifications dialog (n # ns) added =
     (case get_notification_object dialog n of
        Inl e \<Rightarrow> Inl e
      | Inr obj \<Rightarrow>
          if snd obj = None then render_notifications dialog ns added
          else render_notifications dialog ns (added @ [obj]))"

text \<open>
  The indices \<^verbatim>\<open>total_size - added_size\<close> up to \<^verbatim>\<open>total_size\<close> are the notifications left
  after dropping the first \<^verbatim>\<open>total_size - added_size\<close>.
\<close>

definition send_add_group_update :: "manager \<Rightarrow> NotificationGroupKey \<Rightarrow> NotificationGroup
    \<Rightarrow> error + manager" where
  "send_add_group_update m group_key grp =
     (let total_size = length (notifications grp);
          added_size = min total_size (max_notification_group_size m)
      in case render_notifications (dialog_id group_key)
                (drop (total_size - added_size) (notifications grp)) [] of
        Inl e \<Rightarrow> Inl e
      | Inr added_notifications \<Rightarrow>
          if added_notifications \<noteq> []
            then Inr (send_update_notification_group m
                   (updateNotificationGroup (group_id group_key) (dialog_id group_key) 0 True 0
                      added_notifications []))
          else Inr m)"

section \<open>Flushing a group\<close>

text \<open>The loop that raises the key's date to the newest pending date.\<close>

fun final_key :: "NotificationGroupKey \<Rightarrow> PendingNotification list \<Rightarrow> NotificationGroupKey" where
  "final_key k [] = k"
| "final_key k (p # ps) =
     (if last_notification_date k \<le> p_date p
        then final_key (k\<lparr>last_notification_date := p_date p\<rparr>) ps
      else final_key k ps)"

text \<open>
  The loop that splits the pending notifications into batches with common settings.
  Its state is the settings of the batch being collected, the batch, the manager and
  the group; a flush of the empty batch returns at once.
\<close>

fun split_pending :: "NotificationGroupKey \<Rightarrow> PendingNotification list \<Rightarrow> int \<Rightarrow> bool
    \<Rightarrow> PendingNotification list \<Rightarrow> manager \<Rightarrow> NotificationGroup
    \<Rightarrow> error + (PendingNotification list \<times> manager \<times> NotificationGroup)" where
  "split_pending group_key [] settings silent grouped m grp = Inr (grouped, m, grp)"
| "split_pending group_key (p # ps) settings silent grouped m grp =
     (if settings \<noteq> p_settings_dialog_id p \<or> silent \<noteq> p_is_silent p
        then case flush_pending_notifications_batch m group_key grp grouped of
               Inl e \<Rightarrow> Inl e
             | Inr (m', grp') \<Rightarrow>
                 split_pending group_key ps (p_settings_dialog_id p) (p_is_silent p) [p] m' grp'
      else split_pending group_key ps settings silent (grouped @ [p]) m grp)"

text \<open>The branch taken when the group is within the visible groups under its new key.\<close>

definition flush_updated :: "manager \<Rightarrow> NotificationGroupKey \<Rightarrow> NotificationGroup
    \<Rightarrow> NotificationGroupKey \<Rightarrow> bool \<Rightarrow> error + (manager \<times> NotificationGroup)" where
  "flush_updated m group_key grp last_group_key was_updated =
     (case (if \<not> was_updated
              then case (if last_notification_date last_group_key \<noteq> 0
                           then send_remove_group_update m (group_id last_group_key)
                         else Inr m) of
                     Inl e \<Rightarrow> Inl e
                   | Inr m' \<Rightarrow> send_add_group_update m' group_key grp
            else Inr m) of
        Inl e \<Rightarrow> Inl e
      | Inr m1 \<Rightarrow>
          (case split_pending group_key (pending_notifications grp) 0 False [] m1 grp of
             Inl e \<Rightarrow> Inl e
           | Inr (grouped, m2, grp2) \<Rightarrow>
               flush_pending_notifications_batch m2 group_key grp2 grouped))"

text \<open>The branch taken otherwise: the pending notifications are only stored.\<close>

definition flush_not_updated :: "manager \<Rightarrow> NotificationGroup \<Rightarrow> bool
    \<Rightarrow> error + (manager \<times> NotificationGroup)" where
  "flush_not_updated m grp was_updated =
     (if was_updated then Inl (CHECK_failed ''!was_updated'')
      else Inr (m, grp\<lparr>notifications :=
                  notifications grp @ map to_notification (pending_notifications grp)\<rparr>))"

text \<open>The end of the flush: the queue is cleared and old notifications are dropped.\<close>

definition clear_and_trim :: "manager \<Rightarrow> NotificationGroup \<Rightarrow> NotificationGroup" where
  "clear_and_trim m grp =
     (let g = grp\<lparr>pending_notifications_flush_time := 0, pending_notifications := []\<rparr>
      in if keep_notification_group_size m + EXTRA_GROUP_SIZE < length (notifications g)
           then g\<lparr>notifications :=
                  drop (length (notifications g) - keep_notification_group_size m) (notifications g)\<rparr>
         else g)"

definition flush_pending_notifications :: "manager \<Rightarrow> int \<Rightarrow> error + manager" where
  "flush_pending_notifications m gid =
     (case get_group (groups m) gid of
        None \<Rightarrow> Inl (CHECK_failed ''group_it != groups_.end()'')
      | Some pos \<Rightarrow>
          let group_key = fst (groups m ! pos);
              grp = snd (groups m ! pos);
              m0 = m\<lparr>groups := erase pos (groups m)\<rparr>
          in if pending_notifications grp = []
               then Inl (CHECK_failed ''!group.pending_notifications.empty()'')
             else
               let final_group_key = final_key group_key (pending_notifications grp)
               in if last_notification_date final_group_key = 0
                    then Inl (CHECK_failed ''final_group_key.last_notification_date != 0'')
                  else
                    let last_group_key =
                          get_last_updated_group_key (max_notification_group_count m0) (groups m0);
                        was_updated = (last_notification_date group_key \<noteq> 0
                                        \<and> key_less group_key last_group_key);
                        is_updated = key_less final_group_key last_group_key
                    in case (if \<not> is_updated then flush_not_updated m0 grp was_updated
                             else flush_updated m0 group_key grp last_group_key was_updated) of
                         Inl e \<Rightarrow> Inl e
                       | Inr (m1, grp1) \<Rightarrow>
                           Inr (m1\<lparr>groups :=
                                  emplace final_group_key (clear_and_trim m1 grp1) (groups m1)\<rparr>))"

section \<open>The edit path\<close>

text \<open>
  The loop of \<^verbatim>\<open>edit_notification\<close> over \<^verbatim>\<open>group.notifications\<close>.  The notifications
  before index \<^verbatim>\<open>i\<close> are \<open>seen\<close>, so \<^verbatim>\<open>i\<close> is \<open>length seen\<close>.  The pointer \<^verbatim>\<open>type\<close> is part
  of the state: \<^verbatim>\<open>std::move(type)\<close> leaves it null.  The last component of the result is
  the notification an update is sent for, when the loop ends in \<^verbatim>\<open>return\<close>.
\<close>

fun edit_notifications :: "nat \<Rightarrow> int \<Rightarrow> Notification list \<Rightarrow> Notification list
    \<Rightarrow> NotificationType option
    \<Rightarrow> Notification list \<times> NotificationType option \<times> Notification option" where
  "edit_notifications max_size nid seen [] ty = (seen, ty, None)"
| "edit_notifications max_size nid seen (n # rest) ty =
     (if notification_id n = nid
        then if length seen + Suc (length rest) \<le> length seen + max_size
               then (seen @ n\<lparr>ntype := ty\<rparr> # rest, None, Some (n\<lparr>ntype := ty\<rparr>))
             else edit_notifications max_size nid (seen @ [n\<lparr>ntype := ty\<rparr>]) rest None
      else edit_notifications max_size nid (seen @ [n]) rest ty)"

text \<open>The loop over \<^verbatim>\<open>group.pending_notifications\<close>.\<close>

fun edit_pending :: "int \<Rightarrow> PendingNotification list \<Rightarrow> NotificationType option
    \<Rightarrow> PendingNotification list" where
  "edit_pending nid [] ty = []"
| "edit_pending nid (p # ps) ty =
     (if p_notification_id p = nid then p\<lparr>p_type := ty\<rparr> # edit_pending nid ps None
      else p # edit_pending nid ps ty)"

text \<open>
  \<^verbatim>\<open>edit_notification\<close>.  The result of \<^verbatim>\<open>get_group\<close> is dereferenced without a test for
  \<^verbatim>\<open>groups_.end()\<close>.
\<close>

definition edit_notification :: "manager \<Rightarrow> int \<Rightarrow> int \<Rightarrow> NotificationType option \<Rightarrow> error + manager" where
  "edit_notification m gid nid ty =
     (if is_disabled m then Inr m
      else if \<not> is_valid nid then Inl (CHECK_failed ''notification_id.is_valid()'')
      else if ty = None then Inl (CHECK_failed ''type != nullptr'')
      else case get_group (groups m) gid of
        None \<Rightarrow> Inl End_iterator_dereference
      | Some pos \<Rightarrow>
          let key = fst (groups m ! pos);
              grp = snd (groups m ! pos)
          in case edit_notifications (max_notification_group_size m) nid [] (notifications grp) ty of
               (ns, ty', Some n) \<Rightarrow>
                 send_update_notification
                   (m\<lparr>groups := list_update (groups m) pos (key, grp\<lparr>notifications := ns\<rparr>)\<rparr>)
                   (group_id key) (dialog_id key) n
             | (ns, ty', None) \<Rightarrow>
                 Inr (m\<lparr>groups := list_update (groups m) pos (key, grp\<lparr>notifications := ns,
                        pending_notifications := edit_pending nid (pending_notifications grp) ty'\<rparr>)\<rparr>))"

section \<open>Notions of the specification\<close>

text \<open>
  The invariant of the \<^verbatim>\<open>std::map\<close>: its keys increase strictly along the iteration.
\<close>

definition ordered_store :: "(NotificationGroupKey \<times> 'g) list \<Rightarrow> bool" where
  "ordered_store store = sorted_wrt key_less (map fst store)"

text \<open>
  A key is absent from a store when no stored key is equivalent to it, so that
  \<^verbatim>\<open>emplace\<close> inserts it.
\<close>

definition absent_key :: "NotificationGroupKey \<Rightarrow> (NotificationGroupKey \<times> 'g) list \<Rightarrow> bool" where
  "absent_key k store = list_all (\<lambda>e. key_less k (fst e) \<or> key_less (fst e) k) store"

text \<open>
  The visible window is the first \<open>max_count\<close> entries of the store; a key would be inside
  it, were it present, when it is among them once inserted (with whatever group \<open>g\<close>).
\<close>

definition inside_window :: "nat \<Rightarrow> NotificationGroupKey \<Rightarrow> 'g \<Rightarrow> (NotificationGroupKey \<times> 'g) list \<Rightarrow> bool" where
  "inside_window max_count k g store = (k \<in> set (map fst (take max_count (emplace k g store))))"

text \<open>A pending notification is rendered when its type is not null and its render is not null.\<close>

definition is_rendered :: "int \<Rightarrow> PendingNotification \<Rightarrow> bool" where
  "is_rendered dialog p =
     (case p_type p of
        None \<Rightarrow> False
      | Some t \<Rightarrow> get_notification_type_object t dialog \<noteq> None)"

text \<open>What a rendered pending notification contributes to \<^verbatim>\<open>added_notifications\<close>.\<close>

definition rendered_object :: "int \<Rightarrow> PendingNotification \<Rightarrow> td_notification" where
  "rendered_object d p = (p_notification_id p, get_notification_type_object (the (p_type p)) d)"

text \<open>The failures that the branch for a visible group can end in.\<close>

definition flush_errors :: "error set" where
  "flush_errors = {Null_dereference, Narrow_cast_failed,
     CHECK_failed ''removed_notification_ids.empty()'', CHECK_failed ''group_id.is_valid()'',
     CHECK_failed ''group_it != groups_.end()''}"

text \<open>What is observed of a manager in the examples: per group, in store order.\<close>

definition group_counts :: "manager \<Rightarrow> (int \<times> int32 \<times> nat) list" where
  "group_counts m = map (\<lambda>e. (group_id (fst e), total_count (snd e), length (notifications (snd e)))) (groups m)"

definition group_dates :: "manager \<Rightarrow> (int \<times> int) list" where
  "group_dates m = map (\<lambda>e. (group_id (fst e), last_notification_date (fst e))) (groups m)"

section \<open>Example values\<close>

definition message_type :: NotificationType where
  "message_type = \<lparr>can_be_delayed = True, get_notification_type_object = (\<lambda>d. Some ''message'')\<rparr>"

definition edited_type :: NotificationType where
  "edited_type = \<lparr>can_be_delayed = False, get_notification_type_object = (\<lambda>d. Some ''edited'')\<rparr>"

definition hidden_type :: NotificationType where
  "hidden_type = \<lparr>can_be_delayed = True, get_notification_type_object = (\<lambda>d. None)\<rparr>"

definition pending_of :: "int \<Rightarrow> int \<Rightarrow> NotificationType \<Rightarrow> PendingNotification" where
  "pending_of i d t =
     \<lparr>p_date = d, p_settings_dialog_id = 7, p_is_silent = False, p_notification_id = i,
      p_type = Some t\<rparr>"

definition example_manager :: "bool \<Rightarrow> nat \<Rightarrow> nat \<Rightarrow> (NotificationGroupKey \<times> NotificationGroup) list \<Rightarrow> manager" where
  "example_manager b max_count max_size store =
     \<lparr>is_bot = b, groups = store, max_notification_group_count = max_count,
      max_notification_group_size = max_size,
      keep_notification_group_size =
        max_size + max (EXTRA_GROUP_SIZE div 2) (min max_size EXTRA_GROUP_SIZE),
      online_cloud_timeout_ms = 300000, notification_cloud_delay_ms = 2000,
      notification_default_delay_ms = 1500, sent_updates = []\<rparr>"

definition key_of :: "int \<Rightarrow> int \<Rightarrow> NotificationGroupKey" where
  "key_of g d = \<lparr>group_id = g, dialog_id = 10 + g, last_notification_date = d\<rparr>"

definition group_of :: "int32 \<Rightarrow> int list \<Rightarrow> PendingNotification list \<Rightarrow> NotificationGroup" where
  "group_of cnt ids pending =
     \<lparr>total_count = cnt,
      notifications = map (\<lambda>i. \<lparr>notification_id = i, ntype = Some message_type\<rparr>) ids,
      pending_notifications_flush_time = (if pending = [] then 0 else 1),
      pending_notifications = pending\<rparr>"

definition offline_info :: online_info where
  "offline_info =
     \<lparr>is_online_local = False, is_online_remote = True, was_online_remote_recently = False,
      passed_time_cast = 250\<rparr>"

text \<open>A group with a dated key and one pending notification that is older than the key.\<close>

definition dated_group_manager :: manager where
  "dated_group_manager =
     example_manager False 3 10 [(key_of 1 10, group_of 1 [1] [pending_of 2 5 message_type])]"

text \<open>
  One visible group is allowed; group 1 holds the place with date 10, and group 2, never
  flushed, has one pending notification of date 5.
\<close>

definition second_group_manager :: manager where
  "second_group_manager =
     example_manager False 1 3
       [(key_of 1 10, group_of 1 [1] []), (key_of 2 0, group_of 0 [] [pending_of 2 5 message_type])]"

text \<open>
  A batch for a group size of 2: three renderable notifications and, second in the queue,
  one whose render is null.
\<close>

definition capped_pending :: "PendingNotification list" where
  "capped_pending =
     [pending_of 1 5 message_type, pending_of 2 6 hidden_type, pending_of 3 7 message_type,
      pending_of 4 8 message_type]"

text \<open>A group showing two notifications.\<close>

definition two_shown_manager :: manager where
  "two_shown_manager = example_manager False 3 10 [(key_of 1 10, group_of 2 [1, 2] [])]"

text \<open>A group whose shown notification 1 has a copy with the same identifier in the queue.\<close>

definition queued_copy_manager :: manager where
  "queued_copy_manager =
     example_manager False 3 10 [(key_of 1 10, group_of 1 [1] [pending_of 1 5 message_type])]"

section \<open>Properties of the delay policy\<close>

lemma max_int32_ge_right: "b \<le>s max_int32 a b"
  by (simp add: max_int32_def word_sle_eq word_sless_alt)

lemma max_int32_nonneg: "0 \<le> sint (max_int32 0 x)"
  by (simp add: max_int32_def word_sless_alt)

lemma sint_neg_of_nonneg:
  fixes p :: int32
  assumes "0 \<le> sint p"
  shows "sint (0 - p) = - sint p"
proof -
  have "sint p < 2 ^ 31" using sint_lt [of p] by simp
  then have "signed_take_bit 31 (- sint p) = - sint p"
    using assms by (intro signed_take_bit_int_eq_self) simp_all
  then show ?thesis
    by (simp add: sint_word_ariths)
qed

lemma max_int32_secret:
  fixes p min_delay :: int32
  assumes "0 \<le> sint p" and "0 \<le>s min_delay"
  shows "max_int32 (0 - p) min_delay = min_delay"
proof (cases "(0 - p) <s min_delay")
  case True
  then show ?thesis by (simp add: max_int32_def)
next
  case False
  have "sint (0 - p) \<le> 0" using sint_neg_of_nonneg [OF assms(1)] assms(1) by simp
  moreover have "0 \<le> sint min_delay" using assms(2) by (simp add: word_sle_eq)
  moreover have "sint min_delay \<le> sint (0 - p)" using False by (simp add: word_sless_alt)
  ultimately have "sint (0 - p) = sint min_delay" by simp
  then have "0 - p = min_delay" by (rule signed_word_eqI)
  with False show ?thesis by (simp add: max_int32_def)
qed

text \<open>
  C8.  Whenever \<^verbatim>\<open>get_notification_delay_ms\<close> can evaluate its base delay (the dialog is a
  secret chat, or the notification's type is not null) it returns a value that is at
  least \<^verbatim>\<open>MIN_NOTIFICATION_DELAY_MS\<close> in the signed order.  For a secret chat the base
  delay is 0 and, the minimum being a non-negative constant, the returned delay is
  exactly \<^verbatim>\<open>MIN_NOTIFICATION_DELAY_MS\<close>.
\<close>

theorem delay_at_least_min:
  "(dtype = SecretChat \<or> p_type n \<noteq> None \<longrightarrow>
      (\<exists>v. get_notification_delay_ms min_delay m info dtype n = Inr v \<and> min_delay \<le>s v))
   \<and> delay_ms m info SecretChat n = Inr 0
   \<and> (0 \<le>s min_delay \<longrightarrow> get_notification_delay_ms min_delay m info SecretChat n = Inr min_delay)"
proof (intro conjI impI)
  assume "dtype = SecretChat \<or> p_type n \<noteq> None"
  then have "\<exists>d. delay_ms m info dtype n = Inr d"
    by (cases "p_type n") (auto simp: delay_ms_def)
  then obtain d where "delay_ms m info dtype n = Inr d" ..
  then show "\<exists>v. get_notification_delay_ms min_delay m info dtype n = Inr v \<and> min_delay \<le>s v"
    by (simp add: get_notification_delay_ms_def Let_def max_int32_ge_right)
next
  show "delay_ms m info SecretChat n = Inr 0"
    by (simp add: delay_ms_def)
next
  assume "0 \<le>s min_delay"
  then have "max_int32 (0 - max_int32 0 (passed_time_cast info)) min_delay = min_delay"
    by (rule max_int32_secret [OF max_int32_nonneg])
  then show "get_notification_delay_ms min_delay m info SecretChat n = Inr min_delay"
    by (simp add: get_notification_delay_ms_def delay_ms_def Let_def)
qed

theorem delay_at_least_min_witness:
  "(0::int32) \<le>s 1
   \<and> (\<exists>v. get_notification_delay_ms 1 (example_manager False 3 10 []) offline_info User
            (pending_of 1 100 message_type) = Inr v \<and> 1 \<le>s v)
   \<and> get_notification_delay_ms 1 (example_manager False 3 10 []) offline_info SecretChat
        (pending_of 1 100 message_type) = Inr 1"
proof -
  have nonneg: "(0::int32) \<le>s 1"
    by (simp add: word_sle_eq)
  have typed: "p_type (pending_of 1 100 message_type) \<noteq> None"
    by (simp add: pending_of_def)
  show ?thesis
    using nonneg typed
      delay_at_least_min [where dtype = User and n = "pending_of 1 100 message_type"
        and min_delay = 1 and m = "example_manager False 3 10 []" and info = offline_info]
      delay_at_least_min [where dtype = SecretChat and n = "pending_of 1 100 message_type"
        and min_delay = 1 and m = "example_manager False 3 10 []" and info = offline_info]
    by simp
qed

section \<open>Properties of the remove path\<close>

text \<open>
  C9.  \<^verbatim>\<open>remove_notification\<close> resolves the promise with an error of code 400 when the
  notification identifier is invalid; with a valid identifier in a bot session it resolves
  the promise with the unit value.  In both cases the manager, and with it the group store
  and every group, is unchanged.
\<close>

theorem remove_notification_promise:
  "(\<not> is_valid nid \<longrightarrow>
      (\<exists>msg. remove_notification m gid nid = (m, Promise_error 400 msg)))
   \<and> (is_valid nid \<and> is_disabled m \<longrightarrow>
        remove_notification m gid nid = (m, Promise_value ()))"
  by (simp add: remove_notification_def)

theorem remove_notification_promise_witness:
  "\<not> is_valid 0
   \<and> (\<exists>msg. remove_notification (example_manager True 3 10 []) 1 0
               = (example_manager True 3 10 [], Promise_error 400 msg))
   \<and> is_valid 5 \<and> is_disabled (example_manager True 3 10 [])
   \<and> remove_notification (example_manager True 3 10 []) 1 5
        = (example_manager True 3 10 [], Promise_value ())"
proof -
  have invalid: "\<not> is_valid 0" and valid: "is_valid 5"
    by (simp_all add: is_valid_def)
  have bot: "is_disabled (example_manager True 3 10 [])"
    by (simp add: is_disabled_def example_manager_def)
  show ?thesis
    using invalid valid bot
      remove_notification_promise [where nid = 0 and m = "example_manager True 3 10 []" and gid = 1]
      remove_notification_promise [where nid = 5 and m = "example_manager True 3 10 []" and gid = 1]
    by simp
qed

section \<open>Properties of the group lookup\<close>

lemma get_group_None_iff: "get_group store g = None \<longleftrightarrow> g \<notin> set (map (\<lambda>e. group_id (fst e)) store)"
  by (induction store) auto

lemma get_group_Some:
  "get_group store g = Some pos \<Longrightarrow> pos < length store \<and> group_id (fst (store ! pos)) = g"
proof (induction store arbitrary: pos)
  case Nil
  then show ?case by simp
next
  case (Cons e es)
  then show ?case
    by (cases "group_id (fst e) = g") auto
qed

text \<open>
  C10.  \<^verbatim>\<open>edit_notification\<close> assumes that the group exists.  When no entry of the store
  has the group identifier, \<^verbatim>\<open>get_group\<close> returns \<^verbatim>\<open>groups_.end()\<close>, and
  \<^verbatim>\<open>edit_notification\<close>, past its two checks, dereferences it; the flush of the same
  identifier stops at its assertion instead.
\<close>

theorem edit_notification_absent_group:
  "(g \<notin> set (map (\<lambda>e. group_id (fst e)) (groups m)) \<longrightarrow> get_group (groups m) g = None)
   \<and> (get_group (groups m) g = None \<and> \<not> is_disabled m \<and> is_valid nid \<and> ty \<noteq> None \<longrightarrow>
        edit_notification m g nid ty = Inl End_iterator_dereference)
   \<and> (get_group (groups m) g = None \<longrightarrow>
        flush_pending_notifications m g = Inl (CHECK_failed ''group_it != groups_.end()''))"
proof (intro conjI impI)
  assume "g \<notin> set (map (\<lambda>e. group_id (fst e)) (groups m))"
  then show "get_group (groups m) g = None"
    by (rule get_group_None_iff [THEN iffD2])
next
  assume "get_group (groups m) g = None \<and> \<not> is_disabled m \<and> is_valid nid \<and> ty \<noteq> None"
  then show "edit_notification m g nid ty = Inl End_iterator_dereference"
    by (simp add: edit_notification_def)
next
  assume "get_group (groups m) g = None"
  then show "flush_pending_notifications m g = Inl (CHECK_failed ''group_it != groups_.end()'')"
    by (simp add: flush_pending_notifications_def)
qed

theorem edit_notification_absent_group_witness:
  "is_valid 4 \<and> \<not> is_disabled (example_manager False 3 10 [(key_of 1 10, group_of 1 [1] [])])
   \<and> get_group (groups (example_manager False 3 10 [(key_of 1 10, group_of 1 [1] [])])) 4 = None
   \<and> edit_notification (example_manager False 3 10 [(key_of 1 10, group_of 1 [1] [])]) 4 1
        (Some edited_type) = Inl End_iterator_dereference
   \<and> flush_pending_notifications (example_manager False 3 10 [(key_of 1 10, group_of 1 [1] [])]) 4
        = Inl (CHECK_failed ''group_it != groups_.end()'')"
proof -
  let ?m = "example_manager False 3 10 [(key_of 1 10, group_of 1 [1] [])]"
  have absent: "4 \<notin> set (map (\<lambda>e. group_id (fst e)) (groups ?m))"
    by (simp add: example_manager_def key_of_def)
  have enabled: "\<not> is_disabled ?m"
    by (simp add: is_disabled_def example_manager_def)
  have valid: "is_valid 4" "is_valid 1"
    by (simp_all add: is_valid_def)
  show ?thesis
    using absent enabled valid
      edit_notification_absent_group [where g = 4 and m = ?m and nid = 1 and ty = "Some edited_type"]
    by simp
qed

section \<open>Properties of the visible window\<close>

lemma key_less_irrefl: "\<not> key_less k k"
  by (simp add: key_less_def)

lemma key_less_trans: "key_less a b \<Longrightarrow> key_less b c \<Longrightarrow> key_less a c"
  by (auto simp: key_less_def split: if_splits)

lemma advance_drop: "advance left xs = drop (nat (left - 1)) xs"
proof (induction xs arbitrary: left)
  case Nil
  then show ?case by simp
next
  case (Cons e es)
  show ?case
  proof (cases "1 < left")
    case True
    then have "nat (left - 1) = Suc (nat (left - 1 - 1))" by simp
    with True Cons show ?thesis by simp
  next
    case False
    then show ?thesis by simp
  qed
qed

lemma sint_of_nat_int32: "int n < 2 ^ 31 \<Longrightarrow> sint (word_of_nat n :: int32) = int n"
  by (simp add: signed_of_nat signed_take_bit_int_eq_self)

lemma get_last_updated_group_key_nth:
  assumes "int max_count < 2 ^ 31"
  shows "get_last_updated_group_key max_count store =
     (if max_count - 1 < length store then fst (store ! (max_count - 1)) else empty_key)"
proof -
  have "nat (int max_count - 1) = max_count - 1" by simp
  then have *: "advance (sint (word_of_nat max_count :: int32)) store = drop (max_count - 1) store"
    by (simp add: advance_drop sint_of_nat_int32 [OF assms])
  show ?thesis
  proof (cases "max_count - 1 < length store")
    case True
    then have "drop (max_count - 1) store = store ! (max_count - 1) # drop (Suc (max_count - 1)) store"
      by (simp add: Cons_nth_drop_Suc)
    with True * show ?thesis by (simp add: get_last_updated_group_key_def)
  next
    case False
    with * show ?thesis by (simp add: get_last_updated_group_key_def)
  qed
qed

lemma emplace_contains: "absent_key k store \<Longrightarrow> k \<in> set (map fst (emplace k g store))"
  by (induction store) (auto simp: absent_key_def)

lemma length_emplace: "length (emplace k g store) \<le> Suc (length store)"
  by (induction store) auto

lemma window_if_less:
  "absent_key k store \<Longrightarrow> j < length store \<Longrightarrow> key_less k (fst (store ! j))
   \<Longrightarrow> k \<in> set (map fst (take (Suc j) (emplace k g store)))"
proof (induction store arbitrary: j)
  case Nil
  then show ?case by simp
next
  case (Cons e es)
  show ?case
  proof (cases "key_less k (fst e)")
    case True
    then show ?thesis by simp
  next
    case False
    with Cons.prems(1) have gt: "key_less (fst e) k" by (simp add: absent_key_def)
    from False Cons.prems(3) obtain j' where j: "j = Suc j'" by (cases j) auto
    with Cons.prems have "k \<in> set (map fst (take (Suc j') (emplace k g es)))"
      by (intro Cons.IH) (auto simp: absent_key_def)
    with False gt j show ?thesis by simp
  qed
qed

lemma less_if_window:
  "ordered_store store \<Longrightarrow> absent_key k store \<Longrightarrow> j < length store
   \<Longrightarrow> k \<in> set (map fst (take (Suc j) (emplace k g store)))
   \<Longrightarrow> key_less k (fst (store ! j))"
proof (induction store arbitrary: j)
  case Nil
  then show ?case by simp
next
  case (Cons e es)
  show ?case
  proof (cases "key_less k (fst e)")
    case True
    show ?thesis
    proof (cases j)
      case 0
      with True show ?thesis by simp
    next
      case (Suc j')
      with Cons.prems(3) have "es ! j' \<in> set es" by simp
      with Cons.prems(1) have "key_less (fst e) (fst (es ! j'))"
        by (auto simp: ordered_store_def)
      with True Suc show ?thesis by (auto intro: key_less_trans)
    qed
  next
    case False
    with Cons.prems(2) have gt: "key_less (fst e) k" by (simp add: absent_key_def)
    then have ne: "k \<noteq> fst e" using key_less_irrefl by auto
    show ?thesis
    proof (cases j)
      case 0
      with False gt ne Cons.prems(4) show ?thesis by simp
    next
      case (Suc j')
      with False gt ne Cons.prems(4) have "k \<in> set (map fst (take (Suc j') (emplace k g es)))"
        by auto
      with Cons.prems Suc have "key_less k (fst (es ! j'))"
        by (intro Cons.IH) (auto simp: ordered_store_def absent_key_def)
      with Suc show ?thesis by simp
    qed
  qed
qed

text \<open>
  C4, as the code has it.  For a count from 1 up to the largest \<^verbatim>\<open>int\<close>,
  \<^verbatim>\<open>get_last_updated_group_key\<close> returns the key of the entry at index \<open>max_count - 1\<close>, the
  last of the first \<open>max_count\<close> entries of the store it is called on, or the empty key when
  the store has fewer entries.  For a key that is absent from an ordered store, being
  smaller than the returned key is the same as being among the first \<open>max_count\<close> entries
  once inserted and, where the empty key is returned, being smaller than the empty key;
  a key with a positive date is smaller than the empty key.
\<close>

theorem last_key_window:
  assumes "0 < max_count" and "int max_count < 2 ^ 31"
    and "ordered_store store" and "absent_key k store"
  shows "get_last_updated_group_key max_count store
           = (if max_count \<le> length store then fst (store ! (max_count - 1)) else empty_key)
         \<and> (key_less k (get_last_updated_group_key max_count store)
              \<longleftrightarrow> inside_window max_count k g store
                   \<and> (length store < max_count \<longrightarrow> key_less k empty_key))
         \<and> (0 < last_notification_date k \<longrightarrow>
              (key_less k (get_last_updated_group_key max_count store)
                 \<longleftrightarrow> inside_window max_count k g store))"
proof (cases "max_count \<le> length store")
  case True
  with assms(1) have j: "max_count - 1 < length store" "Suc (max_count - 1) = max_count" by auto
  then have last: "get_last_updated_group_key max_count store = fst (store ! (max_count - 1))"
    by (simp add: get_last_updated_group_key_nth [OF assms(2)])
  have "key_less k (fst (store ! (max_count - 1))) \<longleftrightarrow> inside_window max_count k g store"
    unfolding inside_window_def
    using window_if_less [OF assms(4) j(1), of g] less_if_window [OF assms(3,4) j(1), of g] j(2)
    by auto
  with True last show ?thesis by simp
next
  case False
  with assms(1) have last: "get_last_updated_group_key max_count store = empty_key"
    by (auto simp: get_last_updated_group_key_nth [OF assms(2)])
  have "length (emplace k g store) \<le> max_count"
    using False length_emplace [of k g store] by simp
  then have inside: "inside_window max_count k g store"
    using emplace_contains [OF assms(4), of g] by (simp add: inside_window_def)
  have "0 < last_notification_date k \<longrightarrow> key_less k empty_key"
    by (simp add: key_less_def empty_key_def)
  with inside False last show ?thesis by auto
qed

theorem last_key_window_witness:
  "0 < (2::nat) \<and> int 2 < 2 ^ 31 \<and> 0 < (3::nat) \<and> int 3 < 2 ^ 31
   \<and> ordered_store [(key_of 1 10, ()), (key_of 2 5, ())]
   \<and> absent_key (key_of 3 7) [(key_of 1 10, ()), (key_of 2 5, ())]
   \<and> 0 < last_notification_date (key_of 3 7)
   \<and> get_last_updated_group_key 2 [(key_of 1 10, ()), (key_of 2 5, ())] = key_of 2 5
   \<and> key_less (key_of 3 7) (key_of 2 5)
   \<and> inside_window 2 (key_of 3 7) () [(key_of 1 10, ()), (key_of 2 5, ())]
   \<and> length [(key_of 1 10, ()), (key_of 2 5, ())] < 3
   \<and> get_last_updated_group_key 3 [(key_of 1 10, ()), (key_of 2 5, ())] = empty_key
   \<and> key_less (key_of 3 7) empty_key
   \<and> inside_window 3 (key_of 3 7) () [(key_of 1 10, ()), (key_of 2 5, ())]"
proof -
  let ?store = "[(key_of 1 10, ()), (key_of 2 5, ())]"
  have ordered: "ordered_store ?store"
    by (simp add: ordered_store_def key_less_def key_of_def)
  have absent: "absent_key (key_of 3 7) ?store"
    by (simp add: absent_key_def key_less_def key_of_def)
  have dated: "0 < last_notification_date (key_of 3 7)"
    by (simp add: key_of_def)
  have less: "key_less (key_of 3 7) (key_of 2 5)"
    by (simp add: key_less_def key_of_def)
  have two: "0 < (2::nat)" "int 2 < 2 ^ 31" and three: "0 < (3::nat)" "int 3 < 2 ^ 31"
    and short: "length ?store < 3"
    by simp_all
  note full = last_key_window [OF two ordered absent, where g = "()"]
  have last: "get_last_updated_group_key 2 ?store = key_of 2 5"
    using full [THEN conjunct1] by simp
  have inside: "inside_window 2 (key_of 3 7) () ?store"
    using full [THEN conjunct2, THEN conjunct2] dated less unfolding last by blast
  note few = last_key_window [OF three ordered absent, where g = "()"]
  have sentinel: "get_last_updated_group_key 3 ?store = empty_key"
    using few [THEN conjunct1] by simp
  have before: "key_less (key_of 3 7) empty_key"
    by (simp add: key_less_def key_of_def empty_key_def)
  have inside': "inside_window 3 (key_of 3 7) () ?store"
    using few [THEN conjunct2, THEN conjunct1] before unfolding sentinel by blast
  from two three short ordered absent dated last less inside sentinel before inside'
  show ?thesis by blast
qed

text \<open>
  Four inputs at which the statement with the key one past the window, for every count
  and every key, fails.  With a count of 1 and a store of two, the key returned is the
  first one, which is inside the window, and not the second one, which is one past it;
  the key of date 7 is smaller than the second one without being inside the window.
  A key with a negative date is not smaller than the empty key returned for the empty
  store, though it would be inside the window.  With a count of 0 the window is empty,
  yet a dated key is smaller than the key returned.  With a count of \<open>2 ^ 31\<close> the counter
  is negative and the first key is returned: the key of date 7 is not smaller, though it
  would be inside the window.
\<close>

theorem last_key_window_counterexample:
  "get_last_updated_group_key 1 [(key_of 1 10, ()), (key_of 2 5, ())] = key_of 1 10
   \<and> fst ([(key_of 1 10, ()), (key_of 2 5, ())] ! 1) = key_of 2 5
   \<and> key_of 1 10 \<noteq> key_of 2 5
   \<and> key_less (key_of 3 7) (key_of 2 5)
   \<and> \<not> inside_window 1 (key_of 3 7) () [(key_of 1 10, ()), (key_of 2 5, ())]
   \<and> \<not> key_less (key_of 3 (- 1))
          (get_last_updated_group_key 1 ([] :: (NotificationGroupKey \<times> unit) list))
   \<and> inside_window 1 (key_of 3 (- 1)) () []
   \<and> key_less (key_of 1 5)
        (get_last_updated_group_key 0 ([] :: (NotificationGroupKey \<times> unit) list))
   \<and> \<not> inside_window 0 (key_of 1 5) () []
   \<and> get_last_updated_group_key 2147483648 [(key_of 1 10, ()), (key_of 2 5, ())] = key_of 1 10
   \<and> \<not> key_less (key_of 3 7) (key_of 1 10)
   \<and> inside_window 2147483648 (key_of 3 7) () [(key_of 1 10, ()), (key_of 2 5, ())]"
  by (simp add: key_less_def key_of_def get_last_updated_group_key_def empty_key_def
      inside_window_def)

section \<open>Properties of the flush\<close>

lemma final_key_ids:
  "group_id (final_key k ps) = group_id k \<and> dialog_id (final_key k ps) = dialog_id k"
  by (induction ps arbitrary: k) auto

lemma final_key_date_ge: "last_notification_date k \<le> last_notification_date (final_key k ps)"
proof (induction ps arbitrary: k)
  case Nil
  then show ?case by simp
next
  case (Cons p ps)
  show ?case
  proof (cases "last_notification_date k \<le> p_date p")
    case True
    with Cons [of "k\<lparr>last_notification_date := p_date p\<rparr>"] show ?thesis by simp
  next
    case False
    with Cons [of k] show ?thesis by simp
  qed
qed

lemma final_key_date_mem:
  "last_notification_date (final_key k ps) \<in> insert (last_notification_date k) (p_date ` set ps)"
proof (induction ps arbitrary: k)
  case Nil
  then show ?case by simp
next
  case (Cons p ps)
  show ?case
  proof (cases "last_notification_date k \<le> p_date p")
    case True
    with Cons [of "k\<lparr>last_notification_date := p_date p\<rparr>"] show ?thesis by auto
  next
    case False
    with Cons [of k] show ?thesis by auto
  qed
qed

lemma final_key_date_upper:
  "p \<in> set ps \<Longrightarrow> p_date p \<le> last_notification_date (final_key k ps)"
proof (induction ps arbitrary: k)
  case Nil
  then show ?case by simp
next
  case (Cons q ps)
  show ?case
  proof (cases "p = q")
    case True
    show ?thesis
    proof (cases "last_notification_date k \<le> p_date q")
      case True
      with final_key_date_ge [of "k\<lparr>last_notification_date := p_date q\<rparr>" ps] \<open>p = q\<close>
      show ?thesis by simp
    next
      case False
      with final_key_date_ge [of k ps] \<open>p = q\<close> show ?thesis by simp
    qed
  next
    case False
    with Cons.prems have "p \<in> set ps" by simp
    then show ?thesis using Cons.IH by simp
  qed
qed

lemma final_key_date:
  "last_notification_date (final_key k ps) = Max (insert (last_notification_date k) (p_date ` set ps))"
proof (rule Max_eqI [symmetric])
  show "finite (insert (last_notification_date k) (p_date ` set ps))" by simp
next
  fix y
  assume "y \<in> insert (last_notification_date k) (p_date ` set ps)"
  then show "y \<le> last_notification_date (final_key k ps)"
    using final_key_date_ge [of k ps] final_key_date_upper [of _ ps k] by auto
next
  show "last_notification_date (final_key k ps) \<in> insert (last_notification_date k) (p_date ` set ps)"
    by (rule final_key_date_mem)
qed

lemma key_less_final_key: "key_less k l \<Longrightarrow> key_less (final_key k ps) l"
  using final_key_date_ge [of k ps] final_key_ids [of k ps]
  by (auto simp: key_less_def split: if_splits)

lemma add_pending_error: "add_pending d ps added ns = Inl e \<Longrightarrow> e = Null_dereference"
  by (induction ps arbitrary: added ns)
     (auto simp: get_notification_object_def split: option.splits if_splits)

lemma render_notifications_error: "render_notifications d ns added = Inl e \<Longrightarrow> e = Null_dereference"
  by (induction ns arbitrary: added)
     (auto simp: get_notification_object_def split: option.splits if_splits)

lemma batch_empty: "flush_pending_notifications_batch m key grp [] = Inr (m, grp)"
  by (simp add: flush_pending_notifications_batch_def)

lemma batch_nonempty:
  "pending \<noteq> [] \<Longrightarrow>
     flush_pending_notifications_batch m key grp pending =
       (case add_pending (dialog_id key) pending [] (notifications grp) of
          Inl e \<Rightarrow> Inl e
        | Inr (rendered, ns) \<Rightarrow> send_batch m key grp (hd pending) rendered ns)"
  by (cases pending)
     (auto simp: flush_pending_notifications_batch_def simp del: add_pending.simps
       split: sum.splits)

lemma send_batch_error: "send_batch m key grp first rendered ns = Inl e \<Longrightarrow> e \<in> flush_errors"
  by (auto simp: send_batch_def flush_errors_def Let_def split: if_splits)

lemma send_batch_groups:
  "send_batch m key grp first rendered ns = Inr (m', grp') \<Longrightarrow> groups m' = groups m"
  by (auto simp: send_batch_def send_update_notification_group_def Let_def split: if_splits)

lemma batch_error:
  assumes "flush_pending_notifications_batch m key grp pending = Inl e"
  shows "e \<in> flush_errors"
proof (cases "pending = []")
  case True
  with assms show ?thesis by (simp add: batch_empty)
next
  case False
  show ?thesis
  proof (cases "add_pending (dialog_id key) pending [] (notifications grp)")
    case (Inl e')
    with assms False have "e = e'" by (simp add: batch_nonempty)
    with Inl show ?thesis by (auto simp: flush_errors_def dest: add_pending_error)
  next
    case (Inr r)
    with assms False show ?thesis
      by (cases r) (auto simp: batch_nonempty dest: send_batch_error)
  qed
qed

lemma batch_groups:
  assumes "flush_pending_notifications_batch m key grp pending = Inr (m', grp')"
  shows "groups m' = groups m"
proof (cases "pending = []")
  case True
  with assms show ?thesis by (simp add: batch_empty)
next
  case False
  with assms show ?thesis
    by (auto simp: batch_nonempty split: sum.splits dest: send_batch_groups)
qed

lemma split_pending_error:
  "split_pending key ps s sil grouped m grp = Inl e \<Longrightarrow> e \<in> flush_errors"
  by (induction ps arbitrary: s sil grouped m grp)
     (auto split: if_splits sum.splits prod.splits dest: batch_error)

lemma split_pending_groups:
  "split_pending key ps s sil grouped m grp = Inr (grouped', m', grp') \<Longrightarrow> groups m' = groups m"
proof (induction ps arbitrary: s sil grouped m grp)
  case Nil
  then show ?case by simp
next
  case (Cons p ps)
  then show ?case
    by (fastforce split: if_splits sum.splits prod.splits dest: batch_groups)
qed

lemma send_remove_error: "send_remove_group_update m g = Inl e \<Longrightarrow> e \<in> flush_errors"
  by (auto simp: send_remove_group_update_def flush_errors_def Let_def split: if_splits option.splits)

lemma send_remove_groups: "send_remove_group_update m g = Inr m' \<Longrightarrow> groups m' = groups m"
  by (auto simp: send_remove_group_update_def send_update_notification_group_def Let_def
      split: if_splits option.splits)

lemma send_add_error: "send_add_group_update m key grp = Inl e \<Longrightarrow> e \<in> flush_errors"
  by (auto simp: send_add_group_update_def flush_errors_def Let_def
      split: if_splits sum.splits dest: render_notifications_error)

lemma send_add_groups: "send_add_group_update m key grp = Inr m' \<Longrightarrow> groups m' = groups m"
  by (auto simp: send_add_group_update_def send_update_notification_group_def Let_def
      split: if_splits sum.splits)

lemma flush_updated_error: "flush_updated m key grp l w = Inl e \<Longrightarrow> e \<in> flush_errors"
  unfolding flush_updated_def
  by (auto split: if_splits sum.splits prod.splits
      dest: send_remove_error send_add_error split_pending_error batch_error)

lemma flush_updated_groups: "flush_updated m key grp l w = Inr (m', grp') \<Longrightarrow> groups m' = groups m"
  unfolding flush_updated_def
  by (auto split: if_splits sum.splits prod.splits
      dest!: send_remove_groups send_add_groups split_pending_groups batch_groups)

lemma flush_no_was_updated_failure:
  "flush_pending_notifications m gid \<noteq> Inl (CHECK_failed ''!was_updated'')"
proof
  assume failed: "flush_pending_notifications m gid = Inl (CHECK_failed ''!was_updated'')"
  then obtain pos where pos: "get_group (groups m) gid = Some pos"
    by (cases "get_group (groups m) gid") (auto simp: flush_pending_notifications_def)
  define key where "key = fst (groups m ! pos)"
  define grp where "grp = snd (groups m ! pos)"
  define m0 where "m0 = m\<lparr>groups := erase pos (groups m)\<rparr>"
  define l where "l = get_last_updated_group_key (max_notification_group_count m0) (groups m0)"
  define fk where "fk = final_key key (pending_notifications grp)"
  have branch: "(if \<not> key_less fk l
                 then flush_not_updated m0 grp (last_notification_date key \<noteq> 0 \<and> key_less key l)
                 else flush_updated m0 key grp l (last_notification_date key \<noteq> 0 \<and> key_less key l))
               = Inl (CHECK_failed ''!was_updated'')"
    using failed pos
    by (auto simp: flush_pending_notifications_def Let_def key_def grp_def m0_def l_def fk_def
        split: if_splits sum.splits prod.splits)
  show False
  proof (cases "key_less fk l")
    case True
    with branch have "CHECK_failed ''!was_updated'' \<in> flush_errors"
      by (auto dest: flush_updated_error)
    then show False by (simp add: flush_errors_def)
  next
    case False
    with branch have "key_less key l"
      by (auto simp: flush_not_updated_def split: if_splits)
    then have "key_less fk l" unfolding fk_def by (rule key_less_final_key)
    with False show False by simp
  qed
qed

text \<open>
  C5.  The key a flush reinserts has the identifiers of the old key and a date that is not
  smaller, and a larger date sorts first: a group that was within the visible groups under
  its old key is within them under its new key.  Hence no flush ends in the failure of
  \<^verbatim>\<open>CHECK(!was_updated)\<close>.
\<close>

theorem not_updated_was_not_updated:
  "(key_less k l \<longrightarrow> key_less (final_key k ps) l)
   \<and> last_notification_date k \<le> last_notification_date (final_key k ps)
   \<and> flush_pending_notifications m gid \<noteq> Inl (CHECK_failed ''!was_updated'')"
  by (simp add: key_less_final_key final_key_date_ge flush_no_was_updated_failure)

theorem not_updated_was_not_updated_witness:
  "key_less (key_of 2 5) (key_of 1 3)
   \<and> key_less (final_key (key_of 2 5) [pending_of 9 8 message_type]) (key_of 1 3)
   \<and> flush_pending_notifications second_group_manager 2 \<noteq> Inl (CHECK_failed ''!was_updated'')"
proof -
  have less: "key_less (key_of 2 5) (key_of 1 3)"
    by (simp add: key_less_def key_of_def)
  show ?thesis
    using less
      not_updated_was_not_updated [where k = "key_of 2 5" and l = "key_of 1 3"
        and ps = "[pending_of 9 8 message_type]" and m = second_group_manager and gid = 2]
    by simp
qed

lemmas example_defs = example_manager_def key_of_def group_of_def pending_of_def message_type_def
  hidden_type_def edited_type_def

lemmas flush_eval = flush_pending_notifications_def Let_def erase_def
  get_last_updated_group_key_def key_less_def empty_key_def flush_not_updated_def flush_updated_def
  flush_pending_notifications_batch_def send_batch_def cap_added_def removed_ids_def
  get_notification_object_def to_notification_def
  send_update_notification_group_def send_remove_group_update_def send_add_group_update_def
  clear_and_trim_def EXTRA_GROUP_SIZE_def is_valid_def

lemma flush_dated_group:
  "flush_pending_notifications dated_group_manager 1
   = Inr ((example_manager False 3 10 [(key_of 1 10, group_of 2 [1, 2] [])])
            \<lparr>sent_updates := [updateNotificationGroup 1 11 7 False 2 [(2, Some ''message'')] []]\<rparr>)"
  by (simp add: flush_eval example_defs dated_group_manager_def)

text \<open>
  C6, as the code has it.  A flush that returns has found the group, with a non-empty
  queue, and has reinserted it under the key computed by \<^verbatim>\<open>final_key\<close>; the date of that
  key is the larger of the old key's date and the largest date in the queue.
\<close>

theorem flush_key_date:
  assumes "flush_pending_notifications m gid = Inr m'"
  shows "\<exists>pos grp'.
           get_group (groups m) gid = Some pos
         \<and> pending_notifications (snd (groups m ! pos)) \<noteq> []
         \<and> groups m' = emplace (final_key (fst (groups m ! pos)) (pending_notifications (snd (groups m ! pos))))
                          grp' (erase pos (groups m))
         \<and> last_notification_date (final_key (fst (groups m ! pos)) (pending_notifications (snd (groups m ! pos))))
             = max (last_notification_date (fst (groups m ! pos)))
                   (Max (p_date ` set (pending_notifications (snd (groups m ! pos)))))"
proof -
  from assms obtain pos where pos: "get_group (groups m) gid = Some pos"
    by (cases "get_group (groups m) gid") (auto simp: flush_pending_notifications_def)
  define key where "key = fst (groups m ! pos)"
  define grp where "grp = snd (groups m ! pos)"
  define m0 where "m0 = m\<lparr>groups := erase pos (groups m)\<rparr>"
  define l where "l = get_last_updated_group_key (max_notification_group_count m0) (groups m0)"
  define fk where "fk = final_key key (pending_notifications grp)"
  define w where "w = (last_notification_date key \<noteq> 0 \<and> key_less key l)"
  from assms pos have nonempty: "pending_notifications grp \<noteq> []"
    by (auto simp: flush_pending_notifications_def Let_def grp_def split: if_splits)
  from assms pos nonempty obtain m1 grp1 where
    branch: "(if \<not> key_less fk l then flush_not_updated m0 grp w else flush_updated m0 key grp l w)
               = Inr (m1, grp1)"
    and result: "m' = m1\<lparr>groups := emplace fk (clear_and_trim m1 grp1) (groups m1)\<rparr>"
    by (auto simp: flush_pending_notifications_def Let_def key_def grp_def m0_def l_def fk_def w_def
        split: if_splits sum.splits prod.splits)
  from branch have "groups m1 = groups m0"
    by (auto simp: flush_not_updated_def split: if_splits dest: flush_updated_groups)
  with result have store: "groups m' = emplace fk (clear_and_trim m1 grp1) (erase pos (groups m))"
    by (simp add: m0_def)
  have "last_notification_date fk
          = Max (insert (last_notification_date key) (p_date ` set (pending_notifications grp)))"
    unfolding fk_def by (rule final_key_date)
  also have "\<dots> = max (last_notification_date key) (Max (p_date ` set (pending_notifications grp)))"
    using nonempty by simp
  finally have date: "last_notification_date fk
          = max (last_notification_date key) (Max (p_date ` set (pending_notifications grp)))" .
  from pos nonempty store date show ?thesis
    unfolding fk_def key_def grp_def by blast
qed


theorem flush_key_date_witness:
  "flush_pending_notifications dated_group_manager 1
     = Inr ((example_manager False 3 10 [(key_of 1 10, group_of 2 [1, 2] [])])
              \<lparr>sent_updates := [updateNotificationGroup 1 11 7 False 2 [(2, Some ''message'')] []]\<rparr>)
   \<and> (\<exists>pos grp'.
         get_group (groups dated_group_manager) 1 = Some pos
       \<and> pending_notifications (snd (groups dated_group_manager ! pos)) \<noteq> []
       \<and> last_notification_date (final_key (fst (groups dated_group_manager ! pos))
             (pending_notifications (snd (groups dated_group_manager ! pos))))
           = max (last_notification_date (fst (groups dated_group_manager ! pos)))
               (Max (p_date ` set (pending_notifications (snd (groups dated_group_manager ! pos))))))"
  using flush_dated_group flush_key_date [OF flush_dated_group]
  by blast

text \<open>
  The group's key has date 10 and the only pending notification has date 5: after the
  flush the key still has date 10, which is not the largest date in the queue.
\<close>

theorem flush_key_date_counterexample:
  "map_sum id group_dates (flush_pending_notifications dated_group_manager 1) = Inr [(1, 10)]
   \<and> Max (p_date ` set (pending_notifications (snd (groups dated_group_manager ! 0)))) = 5"
proof
  show "map_sum id group_dates (flush_pending_notifications dated_group_manager 1) = Inr [(1, 10)]"
    unfolding flush_dated_group by (simp add: group_dates_def example_defs)
next
  show "Max (p_date ` set (pending_notifications (snd (groups dated_group_manager ! 0)))) = 5"
    by (simp add: dated_group_manager_def example_defs)
qed

text \<open>
  C3 at a failing input.  Group 2 is flushed while group 1 holds the only visible place:
  the pending notification is appended to \<^verbatim>\<open>notifications\<close> and \<^verbatim>\<open>total_count\<close> stays 0.
  The result lists, per group, the identifier, \<^verbatim>\<open>total_count\<close> and
  \<^verbatim>\<open>notifications.size()\<close>.
\<close>

theorem flush_not_updated_total_count:
  "map_sum id group_counts (flush_pending_notifications second_group_manager 2)
     = Inr [(1, 1, 1), (2, 0, 1)]
   \<and> map_sum id sent_updates (flush_pending_notifications second_group_manager 2) = Inr []"
  by (simp add: flush_eval example_defs second_group_manager_def group_counts_def)

section \<open>Properties of the flush of one batch\<close>

lemma add_pending_Inr:
  "add_pending d ps added ns = Inr (added', ns') \<Longrightarrow>
     added' = added @ map (rendered_object d) (filter (is_rendered d) ps)
     \<and> ns' = ns @ map to_notification (filter (is_rendered d) ps)"
proof (induction ps arbitrary: added ns)
  case Nil
  then show ?case by simp
next
  case (Cons p ps)
  show ?case
  proof (cases "p_type p")
    case None
    with Cons.prems show ?thesis
      by (simp add: get_notification_object_def to_notification_def)
  next
    case (Some t)
    show ?thesis
    proof (cases "get_notification_type_object t d")
      case None
      with Some Cons.prems have "add_pending d ps added ns = Inr (added', ns')"
        by (simp add: get_notification_object_def to_notification_def)
      from Cons.IH [OF this] Some None show ?thesis
        by (simp add: is_rendered_def)
    next
      case (Some obj)
      with \<open>p_type p = Some t\<close> Cons.prems
      have "add_pending d ps (added @ [(p_notification_id p, Some obj)]) (ns @ [to_notification p])
              = Inr (added', ns')"
        by (simp add: get_notification_object_def to_notification_def)
      from Cons.IH [OF this] Some \<open>p_type p = Some t\<close> show ?thesis
        by (simp add: is_rendered_def rendered_object_def)
    qed
  qed
qed

lemma add_pending_length:
  "add_pending d ps [] ns = Inr (added', ns') \<Longrightarrow> length added' = length (filter (is_rendered d) ps)"
  by (drule add_pending_Inr) simp

lemma sint_add_of_nat:
  fixes c :: int32
  assumes "int n < 2 ^ 31" and "sint c + int n < 2 ^ 31"
  shows "sint (c + of_nat n) = sint c + int n"
proof -
  have n: "sint (of_nat n :: int32) = int n"
    using assms(1) by (simp add: signed_of_nat signed_take_bit_int_eq_self)
  have "- (2 ^ 31) \<le> sint c" using sint_ge [of c] by simp
  then have "signed_take_bit 31 (sint c + int n) = sint c + int n"
    using assms(2) by (intro signed_take_bit_int_eq_self) simp_all
  with n show ?thesis by (simp add: sint_word_ariths)
qed

lemma length_cap_added: "length (cap_added max_size rendered) = min (length rendered) max_size"
  by (simp add: cap_added_def)

lemma add_pending_total:
  "\<forall>p\<in>set ps. p_type p \<noteq> None \<Longrightarrow> \<exists>r. add_pending d ps added ns = Inr r"
proof (induction ps arbitrary: added ns)
  case Nil
  then show ?case by simp
next
  case (Cons p ps)
  then obtain t where "p_type p = Some t" by auto
  with Cons show ?case
    by (simp add: get_notification_object_def to_notification_def)
qed

lemma removed_ids_in_range:
  assumes "add_pending d ps [] ns0 = Inr (rendered, ns)"
    and "i < min (length ns0) max_size + length (cap_added max_size rendered) - max_size"
  shows "length ns0 - min (length ns0) max_size + i < length ns0"
    and "length ns0 \<le> length ns"
  using assms add_pending_Inr [OF assms(1)] by (auto simp: length_cap_added)

lemma send_batch_total:
  assumes "int (length rendered) < 2 ^ 31"
  shows "\<exists>r. send_batch m key grp first rendered ns = Inr r"
proof -
  have "length (cap_added (max_notification_group_size m) rendered) \<le> length rendered"
    by (simp add: length_cap_added)
  with assms have "int (length (cap_added (max_notification_group_size m) rendered)) < 2 ^ 31"
    by linarith
  moreover have "cap_added (max_notification_group_size m) rendered = [] \<Longrightarrow>
    removed_ids (max_notification_group_size m) (length (notifications grp))
      (min (length (notifications grp)) (max_notification_group_size m)) 0 ns = []"
    by (simp add: removed_ids_def)
  ultimately show ?thesis
    by (auto simp: send_batch_def Let_def)
qed

lemma batch_total:
  assumes "\<forall>p\<in>set pending. p_type p \<noteq> None" and "int (length pending) < 2 ^ 31"
  shows "\<exists>r. flush_pending_notifications_batch m key grp pending = Inr r"
proof (cases "pending = []")
  case True
  then show ?thesis by (simp add: batch_empty)
next
  case False
  from add_pending_total [OF assms(1)] obtain rendered ns where
    r: "add_pending (dialog_id key) pending [] (notifications grp) = Inr (rendered, ns)"
    by fastforce
  have "length rendered \<le> length pending"
    using add_pending_length [OF r] by simp
  with assms(2) have "int (length rendered) < 2 ^ 31" by linarith
  from send_batch_total [OF this] False r show ?thesis
    by (simp add: batch_nonempty)
qed

lemma flush_capped_pending:
  "flush_pending_notifications_batch (example_manager False 3 2 []) (key_of 2 0) (group_of 0 [] [])
     capped_pending
   = Inr ((example_manager False 3 2 [])
            \<lparr>sent_updates := [updateNotificationGroup 2 12 7 False 2
                [(3, Some ''message''), (4, Some ''message'')] []]\<rparr>,
          group_of 2 [1, 3, 4] [])"
  by (simp add: flush_eval example_defs capped_pending_def)

text \<open>
  C1.  A flush of a batch that sends an update sends exactly one
  \<^verbatim>\<open>updateNotificationGroup\<close>; its \<^verbatim>\<open>added_notifications\<close> are the renders of the rendered
  pending notifications, without the first ones beyond \<^verbatim>\<open>max_notification_group_size_\<close>, and
  \<^verbatim>\<open>total_count\<close> is advanced by exactly that length (as a 32-bit addition, which is the
  addition of integers as long as the sum fits); the update carries the new count.
\<close>

theorem total_count_advanced_by_added:
  assumes "flush_pending_notifications_batch m key grp pending = Inr (m', grp')"
    and "sent_updates m' \<noteq> sent_updates m"
  shows "\<exists>added removed.
           sent_updates m' = sent_updates m @
             [updateNotificationGroup (group_id key) (dialog_id key)
                (p_settings_dialog_id (hd pending)) (p_is_silent (hd pending))
                (total_count grp') added removed]
         \<and> added = cap_added (max_notification_group_size m)
                     (map (rendered_object (dialog_id key))
                        (filter (is_rendered (dialog_id key)) pending))
         \<and> length added = min (length (filter (is_rendered (dialog_id key)) pending))
                             (max_notification_group_size m)
         \<and> total_count grp' = total_count grp + of_nat (length added)
         \<and> (sint (total_count grp) + int (length added) < 2 ^ 31 \<longrightarrow>
              sint (total_count grp') = sint (total_count grp) + int (length added))"
proof -
  from assms have nonempty: "pending \<noteq> []"
    by (auto simp: batch_empty)
  with assms(1) obtain rendered ns where
    rendered: "add_pending (dialog_id key) pending [] (notifications grp) = Inr (rendered, ns)"
    and sent: "send_batch m key grp (hd pending) rendered ns = Inr (m', grp')"
    by (auto simp: batch_nonempty split: sum.splits)
  define added where "added = cap_added (max_notification_group_size m) rendered"
  have items: "added = cap_added (max_notification_group_size m)
                     (map (rendered_object (dialog_id key))
                        (filter (is_rendered (dialog_id key)) pending))"
    using add_pending_Inr [OF rendered] by (simp add: added_def)
  have len: "length added = min (length (filter (is_rendered (dialog_id key)) pending))
                              (max_notification_group_size m)"
    using add_pending_length [OF rendered] by (simp add: added_def length_cap_added)
  from sent have cast: "int (length added) < 2 ^ 31"
    by (auto simp: send_batch_def Let_def added_def split: if_splits)
  from sent have count: "total_count grp' = total_count grp + of_nat (length added)"
    by (auto simp: send_batch_def Let_def added_def split: if_splits)
  from sent assms(2) obtain removed where
    "sent_updates m' = sent_updates m @
       [updateNotificationGroup (group_id key) (dialog_id key)
          (p_settings_dialog_id (hd pending)) (p_is_silent (hd pending))
          (total_count grp') added removed]"
    by (auto simp: send_batch_def Let_def added_def send_update_notification_group_def
        split: if_splits)
  moreover have "sint (total_count grp) + int (length added) < 2 ^ 31 \<longrightarrow>
      sint (total_count grp') = sint (total_count grp) + int (length added)"
    using cast count by (simp add: sint_add_of_nat)
  ultimately show ?thesis using items len count by blast
qed

theorem total_count_advanced_by_added_witness:
  "flush_pending_notifications_batch (example_manager False 3 2 []) (key_of 2 0) (group_of 0 [] [])
     capped_pending
   = Inr ((example_manager False 3 2 [])
            \<lparr>sent_updates := [updateNotificationGroup 2 12 7 False 2
                [(3, Some ''message''), (4, Some ''message'')] []]\<rparr>,
          group_of 2 [1, 3, 4] [])
   \<and> length (filter (is_rendered (dialog_id (key_of 2 0))) capped_pending) = 3
   \<and> total_count (group_of 2 [1, 3, 4] []) = total_count (group_of 0 [] []) + of_nat 2
   \<and> sint (total_count (group_of 2 [1, 3, 4] [])) = sint (total_count (group_of 0 [] [])) + 2"
proof -
  let ?m = "example_manager False 3 2 []"
  let ?u = "updateNotificationGroup 2 12 7 False 2 [(3, Some ''message''), (4, Some ''message'')] []"
  have sent: "sent_updates (?m\<lparr>sent_updates := [?u]\<rparr>) \<noteq> sent_updates ?m"
    by (simp add: example_manager_def)
  from total_count_advanced_by_added [OF flush_capped_pending sent]
  obtain added removed where
    update: "sent_updates (?m\<lparr>sent_updates := [?u]\<rparr>) = sent_updates ?m @
       [updateNotificationGroup (group_id (key_of 2 0)) (dialog_id (key_of 2 0))
          (p_settings_dialog_id (hd capped_pending)) (p_is_silent (hd capped_pending))
          (total_count (group_of 2 [1, 3, 4] [])) added removed]"
    and len: "length added = min (length (filter (is_rendered (dialog_id (key_of 2 0))) capped_pending))
                (max_notification_group_size ?m)"
    and count: "total_count (group_of 2 [1, 3, 4] []) = total_count (group_of 0 [] []) + of_nat (length added)"
    and fits: "sint (total_count (group_of 0 [] [])) + int (length added) < 2 ^ 31 \<longrightarrow>
        sint (total_count (group_of 2 [1, 3, 4] []))
          = sint (total_count (group_of 0 [] [])) + int (length added)"
    by blast
  from update have added: "added = [(3, Some ''message''), (4, Some ''message'')]"
    by (simp add: example_manager_def)
  have rendered: "length (filter (is_rendered (dialog_id (key_of 2 0))) capped_pending) = 3"
    by (simp add: is_rendered_def example_defs capped_pending_def)
  from count fits added
  have "total_count (group_of 2 [1, 3, 4] []) = total_count (group_of 0 [] []) + of_nat 2"
    and "sint (total_count (group_of 2 [1, 3, 4] [])) = sint (total_count (group_of 0 [] [])) + 2"
    by (simp_all add: group_of_def)
  with flush_capped_pending rendered show ?thesis
    by blast
qed

lemma add_pending_skip:
  assumes "p_type p = Some t" and "get_notification_type_object t d = None"
  shows "add_pending d (ps @ p # qs) added ns = add_pending d (ps @ qs) added ns"
proof (induction ps arbitrary: added ns)
  case Nil
  from assms show ?case
    by (simp add: get_notification_object_def to_notification_def)
next
  case (Cons q ps)
  then show ?case
    by (simp split: sum.splits)
qed

lemma send_batch_first:
  assumes "send_batch m key grp first rendered ns = Inr (m1, g1)"
  shows "\<exists>m2. send_batch m key grp first' rendered ns = Inr (m2, g1)
           \<and> (p_settings_dialog_id first' = p_settings_dialog_id first
                \<and> p_is_silent first' = p_is_silent first \<longrightarrow> m2 = m1)"
  using assms by (auto simp: send_batch_def Let_def split: if_splits)

lemma send_batch_nothing:
  "send_batch m key grp first [] (notifications grp) = Inr (m, grp)"
  by (simp add: send_batch_def cap_added_def removed_ids_def)

text \<open>
  C2, as the code has it.  A pending notification whose render is null leaves no trace in
  the group: the flush of the batch ends with the group that the flush of the batch
  without it ends with, so it is neither stored nor counted in \<^verbatim>\<open>total_count\<close>.  The
  update sent is the same as well, unless the notification is the first of the batch and
  its settings differ from those of the next one.
\<close>

theorem null_render_not_counted:
  assumes "p_type p = Some t" and "get_notification_type_object t (dialog_id key) = None"
    and "flush_pending_notifications_batch m key grp (ps @ p # qs) = Inr (m1, g1)"
  shows "\<exists>m2. flush_pending_notifications_batch m key grp (ps @ qs) = Inr (m2, g1)
           \<and> ((ps = [] \<and> qs \<noteq> [] \<longrightarrow>
                  p_settings_dialog_id (hd qs) = p_settings_dialog_id p
                  \<and> p_is_silent (hd qs) = p_is_silent p) \<longrightarrow> m2 = m1)"
proof -
  note skip = add_pending_skip [OF assms(1,2), of ps qs "[]" "notifications grp"]
  from assms(3) obtain rendered ns where
    rendered: "add_pending (dialog_id key) (ps @ qs) [] (notifications grp) = Inr (rendered, ns)"
    and sent: "send_batch m key grp (hd (ps @ p # qs)) rendered ns = Inr (m1, g1)"
    by (auto simp: batch_nonempty skip split: sum.splits)
  show ?thesis
  proof (cases "ps @ qs = []")
    case True
    with rendered have "rendered = []" "ns = notifications grp"
      by auto
    with sent have "m1 = m \<and> g1 = grp"
      by (simp add: send_batch_nothing)
    with True show ?thesis
      by (simp add: batch_empty)
  next
    case False
    from send_batch_first [OF sent, of "hd (ps @ qs)"] obtain m2 where
      m2: "send_batch m key grp (hd (ps @ qs)) rendered ns = Inr (m2, g1)"
      and same: "p_settings_dialog_id (hd (ps @ qs)) = p_settings_dialog_id (hd (ps @ p # qs))
                 \<and> p_is_silent (hd (ps @ qs)) = p_is_silent (hd (ps @ p # qs)) \<longrightarrow> m2 = m1"
      by blast
    from False rendered m2
    have "flush_pending_notifications_batch m key grp (ps @ qs) = Inr (m2, g1)"
      by (simp add: batch_nonempty)
    moreover have "(ps = [] \<and> qs \<noteq> [] \<longrightarrow>
                  p_settings_dialog_id (hd qs) = p_settings_dialog_id p
                  \<and> p_is_silent (hd qs) = p_is_silent p) \<longrightarrow> m2 = m1"
      using same False by (cases ps) auto
    ultimately show ?thesis by blast
  qed
qed


theorem null_render_not_counted_witness:
  "p_type (pending_of 2 6 hidden_type) = Some hidden_type
   \<and> get_notification_type_object hidden_type (dialog_id (key_of 2 0)) = None
   \<and> flush_pending_notifications_batch (example_manager False 3 2 []) (key_of 2 0) (group_of 0 [] [])
        ([pending_of 1 5 message_type] @ pending_of 2 6 hidden_type
           # [pending_of 3 7 message_type, pending_of 4 8 message_type])
      = Inr ((example_manager False 3 2 [])
               \<lparr>sent_updates := [updateNotificationGroup 2 12 7 False 2
                   [(3, Some ''message''), (4, Some ''message'')] []]\<rparr>,
             group_of 2 [1, 3, 4] [])
   \<and> flush_pending_notifications_batch (example_manager False 3 2 []) (key_of 2 0) (group_of 0 [] [])
        ([pending_of 1 5 message_type] @ [pending_of 3 7 message_type, pending_of 4 8 message_type])
      = Inr ((example_manager False 3 2 [])
               \<lparr>sent_updates := [updateNotificationGroup 2 12 7 False 2
                   [(3, Some ''message''), (4, Some ''message'')] []]\<rparr>,
             group_of 2 [1, 3, 4] [])"
proof -
  have typed: "p_type (pending_of 2 6 hidden_type) = Some hidden_type"
    by (simp add: pending_of_def)
  have null: "get_notification_type_object hidden_type (dialog_id (key_of 2 0)) = None"
    by (simp add: hidden_type_def)
  have flushed: "flush_pending_notifications_batch (example_manager False 3 2 []) (key_of 2 0)
        (group_of 0 [] [])
        ([pending_of 1 5 message_type] @ pending_of 2 6 hidden_type
           # [pending_of 3 7 message_type, pending_of 4 8 message_type])
      = Inr ((example_manager False 3 2 [])
               \<lparr>sent_updates := [updateNotificationGroup 2 12 7 False 2
                   [(3, Some ''message''), (4, Some ''message'')] []]\<rparr>,
             group_of 2 [1, 3, 4] [])"
    using flush_capped_pending by (simp add: capped_pending_def)
  from null_render_not_counted [OF typed null flushed] typed null flushed
  show ?thesis by auto
qed

text \<open>
  A batch of one notification whose render is null: nothing is sent and the group is
  returned as it was, with \<^verbatim>\<open>total_count\<close> still 0.
\<close>

theorem null_render_not_counted_counterexample:
  "\<not> is_rendered (dialog_id (key_of 2 0)) (pending_of 2 6 hidden_type)
   \<and> flush_pending_notifications_batch (example_manager False 3 2 []) (key_of 2 0) (group_of 0 [] [])
        [pending_of 2 6 hidden_type]
      = Inr (example_manager False 3 2 [], group_of 0 [] [])
   \<and> total_count (group_of 0 [] []) = 0"
  by (simp add: flush_eval example_defs is_rendered_def)

section \<open>Properties of the edit path\<close>

lemma edit_notifications_skip:
  "\<forall>x\<in>set xs. notification_id x \<noteq> nid \<Longrightarrow>
     edit_notifications ms nid seen (xs @ rest) ty = edit_notifications ms nid (seen @ xs) rest ty"
  by (induction xs arbitrary: seen) simp_all

lemma edit_notifications_first_shown:
  assumes "\<forall>x\<in>set xs. notification_id x \<noteq> nid" and "notification_id n = nid"
    and "length ys < ms"
  shows "edit_notifications ms nid [] (xs @ n # ys) ty
           = (xs @ n\<lparr>ntype := ty\<rparr> # ys, None, Some (n\<lparr>ntype := ty\<rparr>))"
  using assms by (simp add: edit_notifications_skip)

lemma edit_notifications_no_match:
  assumes "\<forall>x\<in>set xs. notification_id x \<noteq> nid"
  shows "edit_notifications ms nid [] xs ty = (xs, ty, None)"
  using edit_notifications_skip [OF assms, of ms "[]" "[]" ty] by simp

lemma edit_pending_first:
  assumes "\<forall>x\<in>set ps. p_notification_id x \<noteq> nid" and "p_notification_id p = nid"
  shows "edit_pending nid (ps @ p # qs) ty = ps @ p\<lparr>p_type := ty\<rparr> # edit_pending nid qs None"
  using assms by (induction ps) simp_all

lemma length_edit_pending: "length (edit_pending nid ps ty) = length ps"
  by (induction ps arbitrary: ty) simp_all

text \<open>
  C7, as the code has it, for a group of the store and a valid identifier.  When the first
  notification with the identifier is within the last \<^verbatim>\<open>max_notification_group_size_\<close>
  notifications, its type is replaced, one \<^verbatim>\<open>updateNotification\<close> is sent if the new type
  renders, and nothing else changes: the pending notifications are not scanned.  When no
  notification has the identifier, the pending notifications are scanned and the first
  one with the identifier gets the new type; nothing is sent.
\<close>

theorem edit_notification_first_match:
  assumes "\<not> is_disabled m" and "is_valid nid" and "get_group (groups m) gid = Some pos"
  shows "(\<forall>xs n ys.
            notifications (snd (groups m ! pos)) = xs @ n # ys
          \<and> (\<forall>x\<in>set xs. notification_id x \<noteq> nid) \<and> notification_id n = nid
          \<and> length ys < max_notification_group_size m \<longrightarrow>
            edit_notification m gid nid (Some t)
              = Inr (m\<lparr>groups := list_update (groups m) pos
                         (fst (groups m ! pos),
                          (snd (groups m ! pos))\<lparr>notifications := xs @ n\<lparr>ntype := Some t\<rparr> # ys\<rparr>),
                       sent_updates := sent_updates m @
                         (case get_notification_type_object t (dialog_id (fst (groups m ! pos))) of
                            None \<Rightarrow> []
                          | Some obj \<Rightarrow>
                              [updateNotification (group_id (fst (groups m ! pos))) (nid, Some obj)])\<rparr>))
       \<and> (\<forall>ps p qs.
            (\<forall>x\<in>set (notifications (snd (groups m ! pos))). notification_id x \<noteq> nid)
          \<and> pending_notifications (snd (groups m ! pos)) = ps @ p # qs
          \<and> (\<forall>x\<in>set ps. p_notification_id x \<noteq> nid) \<and> p_notification_id p = nid \<longrightarrow>
            (\<exists>qs'. length qs' = length qs
               \<and> edit_notification m gid nid (Some t)
                   = Inr (m\<lparr>groups := list_update (groups m) pos
                            (fst (groups m ! pos),
                             (snd (groups m ! pos))\<lparr>pending_notifications :=
                                ps @ p\<lparr>p_type := Some t\<rparr> # qs'\<rparr>)\<rparr>)))"
proof (intro conjI allI impI)
  fix xs n ys
  assume a: "notifications (snd (groups m ! pos)) = xs @ n # ys
          \<and> (\<forall>x\<in>set xs. notification_id x \<noteq> nid) \<and> notification_id n = nid
          \<and> length ys < max_notification_group_size m"
  then have loop: "edit_notifications (max_notification_group_size m) nid []
                     (notifications (snd (groups m ! pos))) (Some t)
                   = (xs @ n\<lparr>ntype := Some t\<rparr> # ys, None, Some (n\<lparr>ntype := Some t\<rparr>))"
    by (simp add: edit_notifications_first_shown)
  from a have id: "notification_id n = nid" by simp
  show "edit_notification m gid nid (Some t)
              = Inr (m\<lparr>groups := list_update (groups m) pos
                         (fst (groups m ! pos),
                          (snd (groups m ! pos))\<lparr>notifications := xs @ n\<lparr>ntype := Some t\<rparr> # ys\<rparr>),
                       sent_updates := sent_updates m @
                         (case get_notification_type_object t (dialog_id (fst (groups m ! pos))) of
                            None \<Rightarrow> []
                          | Some obj \<Rightarrow>
                              [updateNotification (group_id (fst (groups m ! pos))) (nid, Some obj)])\<rparr>)"
    using assms loop id
    by (simp add: edit_notification_def Let_def send_update_notification_def
        get_notification_object_def split: option.splits)
next
  fix ps p qs
  assume b: "(\<forall>x\<in>set (notifications (snd (groups m ! pos))). notification_id x \<noteq> nid)
          \<and> pending_notifications (snd (groups m ! pos)) = ps @ p # qs
          \<and> (\<forall>x\<in>set ps. p_notification_id x \<noteq> nid) \<and> p_notification_id p = nid"
  then have loop: "edit_notifications (max_notification_group_size m) nid []
                     (notifications (snd (groups m ! pos))) (Some t)
                   = (notifications (snd (groups m ! pos)), Some t, None)"
    by (simp add: edit_notifications_no_match)
  from b have pend: "edit_pending nid (pending_notifications (snd (groups m ! pos))) (Some t)
                   = ps @ p\<lparr>p_type := Some t\<rparr> # edit_pending nid qs None"
    by (simp add: edit_pending_first)
  have "edit_notification m gid nid (Some t)
          = Inr (m\<lparr>groups := list_update (groups m) pos
                   (fst (groups m ! pos),
                    (snd (groups m ! pos))\<lparr>pending_notifications :=
                       ps @ p\<lparr>p_type := Some t\<rparr> # edit_pending nid qs None\<rparr>)\<rparr>)"
    using assms loop pend
    by (simp add: edit_notification_def Let_def)
  then show "\<exists>qs'. length qs' = length qs
               \<and> edit_notification m gid nid (Some t)
                   = Inr (m\<lparr>groups := list_update (groups m) pos
                            (fst (groups m ! pos),
                             (snd (groups m ! pos))\<lparr>pending_notifications :=
                                ps @ p\<lparr>p_type := Some t\<rparr> # qs'\<rparr>)\<rparr>)"
    using length_edit_pending [of nid qs None] by blast
qed

theorem edit_notification_first_match_witness:
  "\<not> is_disabled two_shown_manager \<and> is_valid 2
   \<and> get_group (groups two_shown_manager) 1 = Some 0
   \<and> edit_notification two_shown_manager 1 2 (Some edited_type)
       = Inr ((example_manager False 3 10
                [(key_of 1 10, (group_of 2 [1, 2] [])
                    \<lparr>notifications := [\<lparr>notification_id = 1, ntype = Some message_type\<rparr>,
                                        \<lparr>notification_id = 2, ntype = Some edited_type\<rparr>]\<rparr>)])
              \<lparr>sent_updates := [updateNotification 1 (2, Some ''edited'')]\<rparr>)
   \<and> \<not> is_disabled dated_group_manager
   \<and> get_group (groups dated_group_manager) 1 = Some 0
   \<and> edit_notification dated_group_manager 1 2 (Some edited_type)
       = Inr (example_manager False 3 10
                [(key_of 1 10, group_of 1 [1] [pending_of 2 5 edited_type])])"
proof -
  have valid: "is_valid 2"
    by (simp add: is_valid_def)
  have enabled: "\<not> is_disabled two_shown_manager" "\<not> is_disabled dated_group_manager"
    by (simp_all add: is_disabled_def two_shown_manager_def dated_group_manager_def
        example_manager_def)
  have found: "get_group (groups two_shown_manager) 1 = Some 0"
    "get_group (groups dated_group_manager) 1 = Some 0"
    by (simp_all add: two_shown_manager_def dated_group_manager_def example_manager_def key_of_def)
  note shown = edit_notification_first_match [OF enabled(1) valid found(1), where t = edited_type,
      THEN conjunct1, rule_format,
      of "[\<lparr>notification_id = 1, ntype = Some message_type\<rparr>]"
         "\<lparr>notification_id = 2, ntype = Some message_type\<rparr>" "[]"]
  note queued = edit_notification_first_match [OF enabled(2) valid found(2), where t = edited_type,
      THEN conjunct2, rule_format, of "[]" "pending_of 2 5 message_type" "[]"]
  have first: "edit_notification two_shown_manager 1 2 (Some edited_type)
       = Inr ((example_manager False 3 10
                [(key_of 1 10, (group_of 2 [1, 2] [])
                    \<lparr>notifications := [\<lparr>notification_id = 1, ntype = Some message_type\<rparr>,
                                        \<lparr>notification_id = 2, ntype = Some edited_type\<rparr>]\<rparr>)])
              \<lparr>sent_updates := [updateNotification 1 (2, Some ''edited'')]\<rparr>)"
    using shown by (simp add: two_shown_manager_def example_defs)
  have second: "edit_notification dated_group_manager 1 2 (Some edited_type)
       = Inr (example_manager False 3 10
                [(key_of 1 10, group_of 1 [1] [pending_of 2 5 edited_type])])"
    using queued by (simp add: dated_group_manager_def example_defs)
  from valid enabled found first second show ?thesis
    by blast
qed

text \<open>
  Notification 1 is shown and a pending notification has the same identifier.  The edit
  replaces the type of the shown one, sends the update and returns: the pending one
  keeps its old type.
\<close>

theorem edit_notification_first_match_counterexample:
  "edit_notification queued_copy_manager 1 1 (Some edited_type)
   = Inr ((example_manager False 3 10
            [(key_of 1 10, (group_of 1 [1] [pending_of 1 5 message_type])
                \<lparr>notifications := [\<lparr>notification_id = 1, ntype = Some edited_type\<rparr>]\<rparr>)])
          \<lparr>sent_updates := [updateNotification 1 (1, Some ''edited'')]\<rparr>)
   \<and> p_type (pending_of 1 5 message_type) \<noteq> Some edited_type"
  by (simp add: edit_notification_def Let_def send_update_notification_def
      get_notification_object_def is_disabled_def is_valid_def example_defs
      queued_copy_manager_def)

end
